theory Spec2Isabelle
  imports Complex_Main
begin

section \<open>Polynomial trend-surface regression: data model\<close>

text \<open>
  The embedding follows \<^verbatim>\<open>src/scripts/TrendSurfaceAnalysis.py\<close> (class
  \<^verbatim>\<open>EnhancedTrendSurfaceAlgorithm\<close>) and, for the normal-equations solver,
  \<^verbatim>\<open>src/plugin/EnhancedTrendSurface/core_analysis.py\<close>.

  Numbers: the program computes with IEEE doubles in numpy arrays. They are idealised as
  \<open>real\<close>: rounding, infinities and NaN have no counterpart here. Where numpy would
  produce NaN from finite input (the median or mean of an empty array) the model returns
  \<open>None\<close>. Python integers are \<open>int\<close>.

  Arrays: a one-dimensional array is a list; a two-dimensional array carries its column
  count next to its rows, so that an array of shape \<open>(0, p)\<close> keeps its \<open>p\<close>.

  Library routines whose result is not elementary (\<^verbatim>\<open>numpy.linalg.lstsq\<close>,
  \<^verbatim>\<open>numpy.linalg.solve\<close>, \<^verbatim>\<open>numpy.linalg.pinv\<close>,
  \<^verbatim>\<open>numpy.random.shuffle\<close>, the scikit-learn metrics, the scipy normality test)
  are parameters of the functions that call them; every exception they may raise is a
  value \<open>Inl e\<close>.
\<close>

datatype error =
    ValueError
  | IndexError
  | ZeroDivisionError
  | UnboundLocalError
  | LinAlgError
  | QgsMatrixSolvingFailed
  | QgsRegressionFailed
  | QgsInsufficientData

type_synonym vec = "real list"

record mat =
  ncols :: nat
  rows :: "vec list"

text \<open>Sequencing of computations that may raise: the first exception wins.\<close>

definition bindE :: "error + 'a \<Rightarrow> ('a \<Rightarrow> error + 'b) \<Rightarrow> error + 'b" where
  "bindE m f = (case m of Inl e \<Rightarrow> Inl e | Inr v \<Rightarrow> f v)"

subsection \<open>numpy array primitives\<close>

text \<open>
  Elementwise binary operation on two one-dimensional arrays with numpy's broadcasting:
  equal lengths combine pointwise, a length-one operand is stretched, anything else
  raises \<^verbatim>\<open>ValueError\<close>.
\<close>

definition broadcast2 :: "(real \<Rightarrow> real \<Rightarrow> real) \<Rightarrow> vec \<Rightarrow> vec \<Rightarrow> error + vec" where
  "broadcast2 f u v =
     (if length u = length v then Inr (map2 f u v)
      else if length v = 1 then Inr (map (\<lambda>a. f a (hd v)) u)
      else if length u = 1 then Inr (map (\<lambda>b. f (hd u) b) v)
      else Inl ValueError)"

text \<open>\<^verbatim>\<open>np.ones((n, p))\<close>.\<close>

definition ones :: "nat \<Rightarrow> nat \<Rightarrow> mat" where
  "ones n p = \<lparr>ncols = p, rows = replicate n (replicate p 1)\<rparr>"

text \<open>
  \<^verbatim>\<open>A[:, c] = v\<close>: the column index must exist, and \<open>v\<close> must have one entry per
  row or be of length one.
\<close>

definition assign_column :: "mat \<Rightarrow> nat \<Rightarrow> vec \<Rightarrow> error + mat" where
  "assign_column A c v =
     (if ncols A \<le> c then Inl IndexError
      else if length v = length (rows A)
        then Inr (A\<lparr>rows := map2 (\<lambda>r e. r[c := e]) (rows A) v\<rparr>)
      else if length v = 1
        then Inr (A\<lparr>rows := map (\<lambda>r. r[c := hd v]) (rows A)\<rparr>)
      else Inl ValueError)"

text \<open>The inner product of a matrix row with a vector of the same length.\<close>

definition dot_row :: "vec \<Rightarrow> vec \<Rightarrow> real" where
  "dot_row r c = sum_list (map2 (\<lambda>a b. a * b) r c)"

text \<open>\<^verbatim>\<open>np.dot(A, c)\<close> for a two-dimensional \<open>A\<close> and a one-dimensional \<open>c\<close>.\<close>

definition mat_vec :: "mat \<Rightarrow> vec \<Rightarrow> error + vec" where
  "mat_vec A c =
     (if ncols A = length c then Inr (map (\<lambda>r. dot_row r c) (rows A)) else Inl ValueError)"

section \<open>Design matrix and polynomial evaluation\<close>

text \<open>\<^verbatim>\<open>n_terms = (degree + 1) * (degree + 2) // 2\<close>; Python's floor division is \<open>div\<close>.\<close>

definition n_terms :: "int \<Rightarrow> int" where
  "n_terms degree = (degree + 1) * (degree + 2) div 2"

text \<open>
  The loop headers \<^verbatim>\<open>for d in range(degree + 1): for j in range(d + 1):\<close>, which
  \<^verbatim>\<open>create_design_matrix\<close> and \<^verbatim>\<open>evaluate_polynomial\<close> both have: the pairs
  \<open>(d, j)\<close> in the order the loop bodies see them.
\<close>

definition loop_dj :: "int \<Rightarrow> (nat \<times> nat) list" where
  "loop_dj degree = concat (map (\<lambda>d. map (\<lambda>j. (d, j)) [0..<d + 1]) [0..<nat (degree + 1)])"

text \<open>
  The body of the loops of \<^verbatim>\<open>create_design_matrix\<close>, run over the remaining pairs
  from the state \<open>(A, col_index)\<close>:
  \<^verbatim>\<open>
  if col_index < n_terms:  # Safety check
      A[:, col_index] = (x ** (d - j)) * (y ** j)
      col_index += 1
  \<close>
\<close>

fun fill_columns :: "vec \<Rightarrow> vec \<Rightarrow> nat \<Rightarrow> (nat \<times> nat) list \<Rightarrow> mat \<times> nat \<Rightarrow> error + mat \<times> nat" where
  "fill_columns x y nt [] s = Inr s"
| "fill_columns x y nt ((d, j) # djs) (A, col_index) =
     (if col_index < nt then
        bindE (broadcast2 (\<lambda>a b. a * b) (map (\<lambda>v. v ^ (d - j)) x) (map (\<lambda>v. v ^ j) y))
          (\<lambda>column. bindE (assign_column A col_index column)
            (\<lambda>A'. fill_columns x y nt djs (A', col_index + 1)))
      else fill_columns x y nt djs (A, col_index))"

definition create_design_matrix :: "vec \<Rightarrow> vec \<Rightarrow> int \<Rightarrow> error + mat" where
  "create_design_matrix x y degree =
     (let n_points = length x;
          nt = nat (n_terms degree)
      in bindE (fill_columns x y nt (loop_dj degree) (ones n_points nt, 0))
           (\<lambda>(A, col_index). Inr A))"

text \<open>
  \<^verbatim>\<open>evaluate_polynomial\<close>, for scalar \<open>x\<close> and \<open>y\<close>; the state of the loops is
  \<open>(value, idx)\<close>:
  \<^verbatim>\<open>
  if idx < len(coefficients):  # Safety check
      value += coefficients[idx] * (x ** (d - j)) * (y ** j)
      idx += 1
  \<close>
\<close>

fun eval_terms :: "real \<Rightarrow> real \<Rightarrow> vec \<Rightarrow> (nat \<times> nat) list \<Rightarrow> real \<times> nat \<Rightarrow> real \<times> nat" where
  "eval_terms x y coefficients [] s = s"
| "eval_terms x y coefficients ((d, j) # djs) (val, idx) =
     (if idx < length coefficients
      then eval_terms x y coefficients djs
             (val + coefficients ! idx * x ^ (d - j) * y ^ j, idx + 1)
      else eval_terms x y coefficients djs (val, idx))"

definition evaluate_polynomial :: "real \<Rightarrow> real \<Rightarrow> vec \<Rightarrow> int \<Rightarrow> real" where
  "evaluate_polynomial x y coefficients degree =
     fst (eval_terms x y coefficients (loop_dj degree) (0, 0))"

text \<open>
  The row of monomials \<open>x\<^sup>d\<^sup>-\<^sup>j y\<^sup>j\<close> for a list of pairs \<open>(d, j)\<close>, and the loop
  pairs for \<open>d < n\<close>; both are used to state what the loops compute.
\<close>

definition term_row :: "real \<Rightarrow> real \<Rightarrow> (nat \<times> nat) list \<Rightarrow> vec" where
  "term_row xi yi djs = map (\<lambda>(d, j). xi ^ (d - j) * yi ^ j) djs"

abbreviation tri_loop :: "nat \<Rightarrow> (nat \<times> nat) list" where
  "tri_loop n \<equiv> concat (map (\<lambda>d. map (\<lambda>j. (d, j)) [0..<d + 1]) [0..<n])"

section \<open>Least-squares fitting\<close>

text \<open>
  What \<^verbatim>\<open>np.linalg.lstsq(A, z, rcond=None)\<close> returns: the solution, its own sums of
  squared residuals (which the program discards), the rank and the singular values.
\<close>

record lstsq_out =
  solution :: vec
  lstsq_residuals :: vec
  s_rank :: nat
  singular_values :: vec

type_synonym solver = "mat \<Rightarrow> vec \<Rightarrow> error + lstsq_out"

text \<open>
  The dictionary \<^verbatim>\<open>model_stats\<close>; the key \<^verbatim>\<open>robust_iterations\<close> is present only
  after a robust fit.
\<close>

record model_stats =
  ms_rank :: nat
  ms_singular_values :: vec
  effective_parameters :: nat
  robust_iterations :: "nat option"

text \<open>
  \<^verbatim>\<open>A * W_sqrt[:, np.newaxis]\<close>: an \<open>(n, p)\<close> array times an \<open>(m, 1)\<close> array, with
  numpy's broadcasting on the first axis.
\<close>

definition scale_rows :: "mat \<Rightarrow> vec \<Rightarrow> error + mat" where
  "scale_rows A s =
     (if length s = length (rows A)
        then Inr (A\<lparr>rows := map2 (\<lambda>r c. map (\<lambda>e. e * c) r) (rows A) s\<rparr>)
      else if length s = 1
        then Inr (A\<lparr>rows := map (\<lambda>r. map (\<lambda>e. e * hd s) r) (rows A)\<rparr>)
      else if length (rows A) = 1
        then Inr (A\<lparr>rows := map (\<lambda>c. map (\<lambda>e. e * c) (hd (rows A))) s\<rparr>)
      else Inl ValueError)"

text \<open>
  The system that \<^verbatim>\<open>least_squares_fit\<close> hands to the solver:
  \<^verbatim>\<open>
  if w is not None and len(w) == len(z):
      W_sqrt = np.sqrt(w)
      A_weighted = A * W_sqrt[:, np.newaxis]
      z_weighted = z * W_sqrt
      ... lstsq(A_weighted, z_weighted, rcond=None)
  else:
      ... lstsq(A, z, rcond=None)
  \<close>
  (\<open>sqrt\<close> is the real square root: numpy's value for a negative weight is NaN, so the
  model speaks about nonnegative weights.)
\<close>

definition lsq_system :: "mat \<Rightarrow> vec \<Rightarrow> vec option \<Rightarrow> error + mat \<times> vec" where
  "lsq_system A z w =
     (case w of
        None \<Rightarrow> Inr (A, z)
      | Some wv \<Rightarrow>
          if length wv = length z then
            (let W_sqrt = map sqrt wv
             in bindE (scale_rows A W_sqrt)
                  (\<lambda>A_weighted. bindE (broadcast2 (\<lambda>a b. a * b) z W_sqrt)
                    (\<lambda>z_weighted. Inr (A_weighted, z_weighted))))
          else Inr (A, z))"

text \<open>
  The two handlers of \<^verbatim>\<open>least_squares_fit\<close>:
  \<^verbatim>\<open>
  except np.linalg.LinAlgError as e:
      raise QgsProcessingException(f"Matrix solving failed: ...")
  except Exception as e:
      raise QgsProcessingException(f"Regression failed: ...")
  \<close>
\<close>

definition qgs_wrap :: "error \<Rightarrow> error" where
  "qgs_wrap e = (if e = LinAlgError then QgsMatrixSolvingFailed else QgsRegressionFailed)"

definition least_squares_fit :: "solver \<Rightarrow> mat \<Rightarrow> vec \<Rightarrow> vec option \<Rightarrow> error + vec \<times> vec \<times> model_stats" where
  "least_squares_fit lstsq A z w =
     (case bindE (lsq_system A z w)
             (\<lambda>(A_s, z_s). bindE (lstsq A_s z_s)
               (\<lambda>out. bindE (mat_vec A (solution out))
                 (\<lambda>z_pred. bindE (broadcast2 (\<lambda>a b. a - b) z z_pred)
                   (\<lambda>residuals. Inr (solution out, residuals,
                      \<lparr>ms_rank = s_rank out, ms_singular_values = singular_values out,
                       effective_parameters = s_rank out, robust_iterations = None\<rparr>)))))
      of Inl e \<Rightarrow> Inl (qgs_wrap e)
       | Inr r \<Rightarrow> Inr r)"

subsection \<open>The normal-equations solver of the plugin's analyzer\<close>

text \<open>\<^verbatim>\<open>A.T\<close> and \<^verbatim>\<open>B @ A\<close> for two-dimensional arrays.\<close>

definition transpose_mat :: "mat \<Rightarrow> mat" where
  "transpose_mat A =
     \<lparr>ncols = length (rows A), rows = map (\<lambda>j. map (\<lambda>r. r ! j) (rows A)) [0..<ncols A]\<rparr>"

definition mat_mul :: "mat \<Rightarrow> mat \<Rightarrow> error + mat" where
  "mat_mul B A =
     (if ncols B = length (rows A)
      then Inr \<lparr>ncols = ncols A,
                rows = map (\<lambda>r. map (\<lambda>j. dot_row r (map (\<lambda>ra. ra ! j) (rows A))) [0..<ncols A])
                           (rows B)\<rparr>
      else Inl ValueError)"

text \<open>
  \<^verbatim>\<open>polynomial_regression\<close> of \<^verbatim>\<open>core_analysis.py\<close>; \<open>solve\<close> is
  \<^verbatim>\<open>np.linalg.solve\<close> and \<open>pinv\<close> is \<^verbatim>\<open>np.linalg.pinv\<close>. Only
  \<^verbatim>\<open>LinAlgError\<close> is caught; the handler's own exceptions propagate.
\<close>

definition residuals_of :: "mat \<Rightarrow> vec \<Rightarrow> vec \<Rightarrow> error + vec \<times> vec" where
  "residuals_of A z coefficients =
     bindE (mat_vec A coefficients)
       (\<lambda>pred. bindE (broadcast2 (\<lambda>a b. a - b) z pred)
         (\<lambda>residuals. Inr (coefficients, residuals)))"

definition polynomial_regression ::
  "(mat \<Rightarrow> vec \<Rightarrow> error + vec) \<Rightarrow> (mat \<Rightarrow> error + mat) \<Rightarrow> mat \<Rightarrow> vec \<Rightarrow> error + vec \<times> vec" where
  "polynomial_regression solve pinv A z =
     (case bindE (mat_mul (transpose_mat A) A)
             (\<lambda>ATA. bindE (mat_vec (transpose_mat A) z)
               (\<lambda>ATz. bindE (solve ATA ATz) (residuals_of A z)))
      of Inr r \<Rightarrow> Inr r
       | Inl e \<Rightarrow>
           if e = LinAlgError
           then bindE (pinv A) (\<lambda>P. bindE (mat_vec P z) (residuals_of A z))
           else Inl e)"

section \<open>Robust regression\<close>

text \<open>
  \<^verbatim>\<open>np.median\<close>: the middle of the sorted values, the mean of the two middle ones
  for an even count, and NaN (\<open>None\<close>) for an empty array. \<^verbatim>\<open>np.max\<close> raises on an
  empty array.
\<close>

definition np_median :: "vec \<Rightarrow> real option" where
  "np_median v =
     (if v = [] then None
      else let s = sort v; n = length v
           in Some (if even n then (s ! (n div 2 - 1) + s ! (n div 2)) / 2 else s ! (n div 2)))"

fun np_max :: "vec \<Rightarrow> error + real" where
  "np_max [] = Inl ValueError"
| "np_max (a # as) = Inr (fold max as a)"

text \<open>\<^verbatim>\<open>np.where(abs_residuals <= k, 1.0, k / abs_residuals)\<close>.\<close>

definition huber_weights :: "real \<Rightarrow> vec \<Rightarrow> vec" where
  "huber_weights k abs_residuals = map (\<lambda>a. if a \<le> k then 1 else k / a) abs_residuals"

text \<open>
  One pass through the body of the loop of \<^verbatim>\<open>robust_regression_fit\<close>, from the
  current \<open>(coefficients, residuals)\<close>: it ends with \<^verbatim>\<open>break\<close>, with the next pair,
  or with an exception that is raised outside the \<^verbatim>\<open>try\<close>.

  For empty residuals the median is NaN, the test \<^verbatim>\<open>mad < 1e-10\<close> is false and
  \<open>k\<close> is NaN, but no weight is computed from it; the model writes \<open>0\<close> there.
\<close>

datatype 'a loop_step = Break | Next 'a

definition robust_iteration ::
  "solver \<Rightarrow> mat \<Rightarrow> vec \<Rightarrow> vec option \<Rightarrow> real \<Rightarrow> vec \<times> vec \<Rightarrow> error + (vec \<times> vec) loop_step" where
  "robust_iteration lstsq A z w tol = (\<lambda>(coefficients, residuals).
     let abs_residuals = map abs residuals;
         mad = np_median abs_residuals
     in if (case mad of None \<Rightarrow> False | Some m \<Rightarrow> m < 1 / 10 ^ 10) then Inr Break
        else
          let k = 1.345 * (case mad of None \<Rightarrow> 0 | Some m \<Rightarrow> m);
              robust_weights = huber_weights k abs_residuals
          in bindE (case w of None \<Rightarrow> Inr robust_weights
                            | Some wv \<Rightarrow> broadcast2 (\<lambda>a b. a * b) robust_weights wv)
               (\<lambda>robust_weights.
                  let W_sqrt = map sqrt robust_weights
                  in bindE (scale_rows A W_sqrt)
                       (\<lambda>A_weighted. bindE (broadcast2 (\<lambda>a b. a * b) z W_sqrt)
                         (\<lambda>z_weighted.
                            case lstsq A_weighted z_weighted of
                              Inl e \<Rightarrow> Inr Break
                            | Inr out \<Rightarrow>
                                let new_coefficients = solution out
                                in bindE (broadcast2 (\<lambda>a b. a - b) new_coefficients coefficients)
                                     (\<lambda>diff. bindE (np_max (map abs diff))
                                       (\<lambda>coefficient_change.
                                          if coefficient_change < tol then Inr Break
                                          else bindE (residuals_of A z new_coefficients)
                                                 (\<lambda>fit. Inr (Next fit))))))))"

text \<open>
  \<^verbatim>\<open>for iteration in range(max_iter):\<close> over the remaining values of \<open>iteration\<close>;
  the state carries the last value bound to \<open>iteration\<close>, if any.
\<close>

fun robust_loop ::
  "solver \<Rightarrow> mat \<Rightarrow> vec \<Rightarrow> vec option \<Rightarrow> real \<Rightarrow> nat list \<Rightarrow> (vec \<times> vec) \<times> nat option
     \<Rightarrow> error + (vec \<times> vec) \<times> nat option" where
  "robust_loop lstsq A z w tol [] s = Inr s"
| "robust_loop lstsq A z w tol (iteration # rest) (fit, bound) =
     bindE (robust_iteration lstsq A z w tol fit)
       (\<lambda>step. case step of
                  Break \<Rightarrow> Inr (fit, Some iteration)
                | Next fit' \<Rightarrow> robust_loop lstsq A z w tol rest (fit', Some iteration))"

text \<open>
  \<^verbatim>\<open>robust_regression_fit(A, z, w, feedback, max_iter=20, tol=1e-6)\<close>. After the loop
  \<^verbatim>\<open>model_stats['robust_iterations'] = iteration + 1\<close> needs \<open>iteration\<close> to be bound.
\<close>

definition robust_regression_fit ::
  "solver \<Rightarrow> mat \<Rightarrow> vec \<Rightarrow> vec option \<Rightarrow> int \<Rightarrow> real \<Rightarrow> error + vec \<times> vec \<times> model_stats" where
  "robust_regression_fit lstsq A z w max_iter tol =
     bindE (least_squares_fit lstsq A z w)
       (\<lambda>(coefficients, residuals, stats).
          bindE (robust_loop lstsq A z w tol [0..<nat max_iter] ((coefficients, residuals), None))
            (\<lambda>((coefficients', residuals'), bound).
               case bound of
                 None \<Rightarrow> Inl UnboundLocalError
               | Some iteration \<Rightarrow>
                   Inr (coefficients', residuals', stats\<lparr>robust_iterations := Some (iteration + 1)\<rparr>)))"

definition default_max_iter :: int where "default_max_iter = 20"

definition default_tol :: real where "default_tol = 1 / 10 ^ 6"

subsection \<open>A concrete solver for one-column systems\<close>

text \<open>
  For a system with a single column \<open>a\<close> the minimum-norm least-squares solution is
  \<open>(a \<cdot> z) / (a \<cdot> a)\<close> (and \<open>0\<close> for a zero column), its rank is one and its
  singular value is \<open>\<surd>(a \<cdot> a)\<close>. This instance of the solver parameter is used in
  the worked examples; degree \<open>0\<close> design matrices have this shape.
\<close>

definition lstsq_column :: solver where
  "lstsq_column A z =
     (if ncols A = 1 \<and> length (rows A) = length z \<and> list_all (\<lambda>r. length r = 1) (rows A) then
        (let a = map hd (rows A);
             saa = sum_list (map2 (\<lambda>u v. u * v) a a);
             saz = sum_list (map2 (\<lambda>u v. u * v) a z)
         in if saa = 0
            then Inr \<lparr>solution = [0], lstsq_residuals = [], s_rank = 0, singular_values = [0]\<rparr>
            else Inr \<lparr>solution = [saz / saa],
                      lstsq_residuals =
                        (if 1 < length z
                         then [sum_list (map2 (\<lambda>u v. (v - u * (saz / saa)) ^ 2) a z)] else []),
                      s_rank = 1, singular_values = [sqrt saa]\<rparr>)
      else Inl LinAlgError)"

section \<open>Properties of the term enumeration\<close>

lemma bindE_simps [simp]:
  "bindE (Inl e) f = Inl e"
  "bindE (Inr v) f = f v"
  by (simp_all add: bindE_def)

lemma length_loop_nat: "2 * length (concat (map (\<lambda>d. map (\<lambda>j. (d, j)) [0..<d + 1]) [0..<n])) = n * (n + 1)"
  by (induction n) auto

lemma length_loop_dj:
  assumes "0 \<le> degree"
  shows "length (loop_dj degree) = nat (n_terms degree)"
proof -
  define n where "n = nat (degree + 1)"
  have deg: "degree = int n - 1" using assms by (simp add: n_def)
  have "2 * length (loop_dj degree) = n * (n + 1)"
    unfolding loop_dj_def n_def [symmetric] by (rule length_loop_nat)
  moreover have "n_terms degree = int (n * (n + 1) div 2)"
    unfolding n_terms_def deg by (simp add: zdiv_int algebra_simps)
  ultimately show ?thesis by simp
qed

lemma row_update:
  "col < length r \<Longrightarrow>
   take (Suc col) (r[col := e]) @ ms @ drop (Suc (col + k)) (r[col := e])
   = take col r @ (e # ms) @ drop (Suc (col + k)) r"
  by (simp add: take_Suc_conv_app_nth)

lemma fill_columns_eq:
  assumes "length x = length y" "length (rows A) = length x"
    and "\<forall>r \<in> set (rows A). length r = nt" "ncols A = nt" "col + length djs \<le> nt"
  shows "fill_columns x y nt djs (A, col) =
     Inr (A\<lparr>rows := map (\<lambda>i. take col (rows A ! i) @ term_row (x ! i) (y ! i) djs
                              @ drop (col + length djs) (rows A ! i)) [0..<length x]\<rparr>,
          col + length djs)"
  using assms
proof (induction djs arbitrary: A col)
  case Nil
  have "map (\<lambda>i. take col (rows A ! i) @ drop col (rows A ! i)) [0..<length x] = rows A"
    using Nil.prems(2) by (intro nth_equalityI) auto
  then show ?case by (simp add: term_row_def)
next
  case (Cons dj djs)
  obtain d j where dj: "dj = (d, j)" by (cases dj)
  define cl where "cl = map2 (\<lambda>a b. a * b) (map (\<lambda>v. v ^ (d - j)) x) (map (\<lambda>v. v ^ j) y)"
  define A' where "A' = A\<lparr>rows := map2 (\<lambda>r e. r[col := e]) (rows A) cl\<rparr>"
  have col: "col < nt" using Cons.prems(5) by simp
  have bc: "broadcast2 (\<lambda>a b. a * b) (map (\<lambda>v. v ^ (d - j)) x) (map (\<lambda>v. v ^ j) y) = Inr cl"
    using Cons.prems(1) by (simp add: broadcast2_def cl_def)
  have lc: "length cl = length x" using Cons.prems(1) by (simp add: cl_def)
  have ac: "assign_column A col cl = Inr A'"
    using col Cons.prems(2,4) lc by (simp add: assign_column_def A'_def)
  have rows': "rows A' ! i = (rows A ! i)[col := x ! i ^ (d - j) * y ! i ^ j]" if "i < length x" for i
    using that Cons.prems(1,2) by (simp add: A'_def cl_def)
  have len': "\<forall>r \<in> set (rows A'). length r = nt"
    using Cons.prems(3) by (auto simp: set_zip A'_def)
  have lr: "length (rows A') = length x" using Cons.prems(2) lc by (simp add: A'_def)
  have nc: "ncols A' = nt" using Cons.prems(4) by (simp add: A'_def)
  have IH: "fill_columns x y nt djs (A', Suc col) =
     Inr (A'\<lparr>rows := map (\<lambda>i. take (Suc col) (rows A' ! i) @ term_row (x ! i) (y ! i) djs
                              @ drop (Suc col + length djs) (rows A' ! i)) [0..<length x]\<rparr>,
          Suc col + length djs)"
    using Cons.prems(1,5) lr len' nc by (intro Cons.IH) simp_all
  have rowlen: "col < length (rows A ! i)" if "i < length x" for i
    using that Cons.prems(2,3) col by (metis nth_mem)
  have eq: "map (\<lambda>i. take (Suc col) (rows A' ! i) @ term_row (x ! i) (y ! i) djs
                              @ drop (Suc col + length djs) (rows A' ! i)) [0..<length x]
     = map (\<lambda>i. take col (rows A ! i) @ term_row (x ! i) (y ! i) ((d, j) # djs)
                              @ drop (col + length ((d, j) # djs)) (rows A ! i)) [0..<length x]"
  proof (rule map_cong [OF refl])
    fix i assume "i \<in> set [0..<length x]"
    then have i: "i < length x" by simp
    show "take (Suc col) (rows A' ! i) @ term_row (x ! i) (y ! i) djs
                              @ drop (Suc col + length djs) (rows A' ! i)
       = take col (rows A ! i) @ term_row (x ! i) (y ! i) ((d, j) # djs)
                              @ drop (col + length ((d, j) # djs)) (rows A ! i)"
      unfolding rows' [OF i]
      using row_update [OF rowlen [OF i], of "x ! i ^ (d - j) * y ! i ^ j" "term_row (x ! i) (y ! i) djs" "length djs"]
      by (simp add: term_row_def)
  qed
  have upd: "A'\<lparr>rows := R\<rparr> = A\<lparr>rows := R\<rparr>" for R by (simp add: A'_def)
  show ?case
    unfolding dj fill_columns.simps using col eq
    by (simp add: bc ac IH upd)
qed


lemma create_design_matrix_eq:
  assumes "0 \<le> degree" "length x = length y"
  shows "create_design_matrix x y degree =
     Inr \<lparr>ncols = nat (n_terms degree),
          rows = map (\<lambda>i. term_row (x ! i) (y ! i) (loop_dj degree)) [0..<length x]\<rparr>"
proof -
  let ?nt = "nat (n_terms degree)"
  have len: "length (loop_dj degree) = ?nt" by (rule length_loop_dj [OF assms(1)])
  have "fill_columns x y ?nt (loop_dj degree) (ones (length x) ?nt, 0) =
     Inr ((ones (length x) ?nt)\<lparr>rows := map (\<lambda>i. take 0 (rows (ones (length x) ?nt) ! i)
              @ term_row (x ! i) (y ! i) (loop_dj degree)
              @ drop (0 + length (loop_dj degree)) (rows (ones (length x) ?nt) ! i)) [0..<length x]\<rparr>,
          0 + length (loop_dj degree))"
    by (rule fill_columns_eq) (simp_all add: ones_def assms(2) len)
  moreover have "map (\<lambda>i. take 0 (rows (ones (length x) ?nt) ! i)
              @ term_row (x ! i) (y ! i) (loop_dj degree)
              @ drop (0 + length (loop_dj degree)) (rows (ones (length x) ?nt) ! i)) [0..<length x]
      = map (\<lambda>i. term_row (x ! i) (y ! i) (loop_dj degree)) [0..<length x]"
    by (rule map_cong [OF refl]) (simp add: ones_def len)
  ultimately have "fill_columns x y ?nt (loop_dj degree) (ones (length x) ?nt, 0) =
     Inr (\<lparr>ncols = ?nt, rows = map (\<lambda>i. term_row (x ! i) (y ! i) (loop_dj degree)) [0..<length x]\<rparr>,
          ?nt)"
    by (simp add: len ones_def)
  then show ?thesis
    by (simp add: create_design_matrix_def Let_def)
qed

lemma length_term_row [simp]: "length (term_row xi yi djs) = length djs"
  by (simp add: term_row_def)

lemma length_tri_loop: "length (tri_loop n) = n * (n + 1) div 2"
  using length_loop_nat [of n] by simp

lemma length_tri_loop_mono: "m \<le> n \<Longrightarrow> length (tri_loop m) \<le> length (tri_loop n)"
  by (induction n) (auto simp: le_Suc_eq)

lemma tri_loop_Suc: "tri_loop (Suc n) = tri_loop n @ map (\<lambda>j. (n, j)) [0..<n + 1]"
  by simp

lemma tri_loop_nth:
  "d < n \<Longrightarrow> j \<le> d \<Longrightarrow> tri_loop n ! (length (tri_loop d) + j) = (d, j)"
proof (induction n)
  case 0
  then show ?case by simp
next
  case (Suc n)
  show ?case
  proof (cases "d < n")
    case True
    have "length (tri_loop (Suc d)) \<le> length (tri_loop n)"
      using True by (intro length_tri_loop_mono) simp
    then have "length (tri_loop d) + j < length (tri_loop n)"
      using Suc.prems(2) by simp
    then show ?thesis using Suc.IH [OF True Suc.prems(2)] by (simp add: nth_append)
  next
    case False
    then have "d = n" using Suc.prems(1) by simp
    have "j < length (map (\<lambda>j. (n, j)) [0..<n + 1])" using Suc.prems(2) \<open>d = n\<close> by simp
    then have "(tri_loop n @ map (\<lambda>j. (n, j)) [0..<n + 1]) ! (length (tri_loop n) + j) = (n, j)"
      by (simp only: nth_append_length_plus) (simp del: upt_Suc)
    then show ?thesis unfolding tri_loop_Suc \<open>d = n\<close> .
  qed
qed

lemma loop_dj_nth:
  assumes "int d \<le> degree" "j \<le> d"
  shows "d * (d + 1) div 2 + j < length (loop_dj degree)"
    and "loop_dj degree ! (d * (d + 1) div 2 + j) = (d, j)"
proof -
  have d: "d < nat (degree + 1)" using assms(1) by simp
  have "length (tri_loop (Suc d)) \<le> length (tri_loop (nat (degree + 1)))"
    using d by (intro length_tri_loop_mono) simp
  then show "d * (d + 1) div 2 + j < length (loop_dj degree)"
    using assms(2) length_tri_loop [of d] by (simp add: loop_dj_def)
  show "loop_dj degree ! (d * (d + 1) div 2 + j) = (d, j)"
    using tri_loop_nth [OF d assms(2)] length_tri_loop [of d] by (simp add: loop_dj_def)
qed

lemma eval_terms_eq:
  "idx + length djs \<le> length cs \<Longrightarrow>
   eval_terms x y cs djs (v, idx) =
     (v + sum_list (map2 (\<lambda>c (d, j). c * x ^ (d - j) * y ^ j) (drop idx cs) djs),
      idx + length djs)"
proof (induction djs arbitrary: v idx)
  case Nil
  then show ?case by simp
next
  case (Cons dj djs)
  obtain d j where dj: "dj = (d, j)" by (cases dj)
  have idx: "idx < length cs" using Cons.prems by simp
  have dr: "drop idx cs = cs ! idx # drop (Suc idx) cs"
    using idx by (simp add: Cons_nth_drop_Suc)
  show ?case
    unfolding dj using idx Cons.prems Cons.IH [of "Suc idx"]
    by (simp add: dr algebra_simps)
qed

lemma dot_row_term_row:
  "dot_row (term_row x y djs) cs = sum_list (map2 (\<lambda>c (d, j). c * x ^ (d - j) * y ^ j) cs djs)"
proof (induction djs arbitrary: cs)
  case Nil
  then show ?case by (simp add: dot_row_def term_row_def)
next
  case (Cons dj djs)
  then show ?case
    by (cases cs; cases dj) (simp_all add: dot_row_def term_row_def algebra_simps)
qed

section \<open>Properties of the solvers\<close>


lemma residuals_of_fst: "residuals_of A z c = Inr f \<Longrightarrow> fst f = c"
  by (auto simp: residuals_of_def bindE_def split: sum.splits)

lemma residuals_of_Inr:
  "residuals_of A z c = Inr (c', r) \<longleftrightarrow>
     c' = c \<and> (\<exists>pred. mat_vec A c = Inr pred \<and> broadcast2 (\<lambda>a b. a - b) z pred = Inr r)"
  by (auto simp: residuals_of_def bindE_def split: sum.splits)

lemma least_squares_fit_Inr:
  assumes "least_squares_fit lstsq A z w = Inr (c, r, st)"
  shows "\<exists>A_s z_s out. lsq_system A z w = Inr (A_s, z_s) \<and> lstsq A_s z_s = Inr out
           \<and> c = solution out \<and> residuals_of A z c = Inr (c, r)
           \<and> st = \<lparr>ms_rank = s_rank out, ms_singular_values = singular_values out,
                    effective_parameters = s_rank out, robust_iterations = None\<rparr>"
  using assms
  by (auto simp: least_squares_fit_def residuals_of_def bindE_def split: sum.splits prod.splits)

lemma broadcast2_same_length:
  "length u = length v \<Longrightarrow> broadcast2 f u v = Inr (map2 f u v)"
  by (simp add: broadcast2_def)

lemma robust_iteration_Next:
  assumes "robust_iteration lstsq A z w tol fit = Inr (Next fit')"
  shows "residuals_of A z (fst fit') = Inr fit'"
proof -
  obtain c r where fit: "fit = (c, r)" by (cases fit)
  from assms obtain c' where "residuals_of A z c' = Inr fit'"
    unfolding fit robust_iteration_def
    by (auto simp: Let_def bindE_def split: sum.splits option.splits if_splits)
  then show ?thesis using residuals_of_fst by metis
qed

lemma robust_loop_invariant:
  assumes "robust_loop lstsq A z w tol its (fit, b) = Inr (fit', b')"
    and "residuals_of A z (fst fit) = Inr fit"
  shows "residuals_of A z (fst fit') = Inr fit'"
  using assms
proof (induction its arbitrary: fit b)
  case Nil
  then show ?case by simp
next
  case (Cons it its)
  from Cons.prems(1) obtain step where step: "robust_iteration lstsq A z w tol fit = Inr step"
    by (auto simp: bindE_def split: sum.splits)
  show ?case
  proof (cases step)
    case Break
    then show ?thesis using Cons.prems step by simp
  next
    case (Next fit2)
    have "robust_loop lstsq A z w tol its (fit2, Some it) = Inr (fit', b')"
      using Cons.prems(1) step Next by simp
    moreover have "residuals_of A z (fst fit2) = Inr fit2"
      using robust_iteration_Next step Next by metis
    ultimately show ?thesis by (rule Cons.IH)
  qed
qed

lemma robust_regression_fit_Inr:
  assumes "robust_regression_fit lstsq A z w max_iter tol = Inr (c, r, st)"
  shows "\<exists>c0 r0 st0 it. least_squares_fit lstsq A z w = Inr (c0, r0, st0)
      \<and> robust_loop lstsq A z w tol [0..<nat max_iter] ((c0, r0), None) = Inr ((c, r), Some it)
      \<and> st = st0\<lparr>robust_iterations := Some (it + 1)\<rparr>"
  using assms unfolding robust_regression_fit_def
  by (auto simp: bindE_def split: sum.splits prod.splits option.splits)

lemma map2_nth: "length u = length v \<Longrightarrow> map2 f u v = map (\<lambda>i. f (u ! i) (v ! i)) [0..<length u]"
  by (auto intro!: nth_equalityI)

lemma scale_rows_same_length:
  "length s = length (rows A) \<Longrightarrow>
   scale_rows A s = Inr (A\<lparr>rows := map (\<lambda>i. map (\<lambda>e. e * s ! i) (rows A ! i)) [0..<length s]\<rparr>)"
  using map2_nth [of "rows A" s "\<lambda>r c. map (\<lambda>e. e * c) r"] by (simp add: scale_rows_def)

lemma np_max_Max: "v \<noteq> [] \<Longrightarrow> np_max v = Inr (Max (set v))"
proof (cases v)
  case Nil
  then show "v \<noteq> [] \<Longrightarrow> ?thesis" by simp
next
  case (Cons a as)
  have "fold max as a = Max (set (a # as))" by (rule Max.set_eq_fold [symmetric])
  then show ?thesis using Cons by simp
qed

lemma robust_loop_bound:
  "robust_loop lstsq A z w tol its (fit, b) = Inr (fit', Some it) \<Longrightarrow> it \<in> set its \<or> b = Some it"
proof (induction its arbitrary: fit b)
  case Nil
  then show ?case by simp
next
  case (Cons i its)
  from Cons.prems obtain step where step: "robust_iteration lstsq A z w tol fit = Inr step"
    by (auto simp: bindE_def split: sum.splits)
  show ?case
  proof (cases step)
    case Break
    then show ?thesis using Cons.prems step by simp
  next
    case (Next fit2)
    then have "robust_loop lstsq A z w tol its (fit2, Some i) = Inr (fit', Some it)"
      using Cons.prems step by simp
    from Cons.IH [OF this] show ?thesis by auto
  qed
qed

lemma robust_weights_eq:
  assumes "length residuals = n" "\<forall>wv. w = Some wv \<longrightarrow> length wv = n"
  shows "(case w of None \<Rightarrow> Inr (huber_weights k (map abs residuals))
                  | Some wv \<Rightarrow> broadcast2 (\<lambda>a b. a * b) (huber_weights k (map abs residuals)) wv)
       = Inr (map (\<lambda>i. (if \<bar>residuals ! i\<bar> \<le> k then 1 else k / \<bar>residuals ! i\<bar>)
                          * (case w of None \<Rightarrow> 1 | Some wv \<Rightarrow> wv ! i)) [0..<n])"
proof (cases w)
  case None
  then show ?thesis using assms(1) by (auto simp: huber_weights_def intro!: nth_equalityI)
next
  case (Some wv)
  then have "length wv = n" using assms(2) by simp
  then show ?thesis using assms(1) Some
    by (auto simp: huber_weights_def broadcast2_def intro!: nth_equalityI)
qed

lemma robust_refit_eq:
  fixes k :: real
  assumes len: "length residuals = length z" "length (rows A) = length z"
      "\<forall>wv. w = Some wv \<longrightarrow> length wv = length z"
  defines "rw \<equiv> (\<lambda>i. (if \<bar>residuals ! i\<bar> \<le> k then 1 else k / \<bar>residuals ! i\<bar>)
                        * (case w of None \<Rightarrow> 1 | Some wv \<Rightarrow> wv ! i))"
  shows "bindE (case w of None \<Rightarrow> Inr (huber_weights k (map abs residuals))
                  | Some wv \<Rightarrow> broadcast2 (\<lambda>a b. a * b) (huber_weights k (map abs residuals)) wv)
           (\<lambda>robust_weights. bindE (scale_rows A (map sqrt robust_weights))
              (\<lambda>A_weighted. bindE (broadcast2 (\<lambda>a b. a * b) z (map sqrt robust_weights))
                 (\<lambda>z_weighted. F A_weighted z_weighted)))
       = F (A\<lparr>rows := map (\<lambda>i. map (\<lambda>e. e * sqrt (rw i)) (rows A ! i)) [0..<length z]\<rparr>)
           (map (\<lambda>i. z ! i * sqrt (rw i)) [0..<length z])"
proof -
  define W where "W = map (\<lambda>i. sqrt (rw i)) [0..<length z]"
  have w: "(case w of None \<Rightarrow> Inr (huber_weights k (map abs residuals))
                  | Some wv \<Rightarrow> broadcast2 (\<lambda>a b. a * b) (huber_weights k (map abs residuals)) wv)
       = Inr (map rw [0..<length z])"
    unfolding rw_def by (rule robust_weights_eq [OF len(1) len(3)])
  have W: "map sqrt (map rw [0..<length z]) = W" by (simp add: W_def)
  have lW: "length W = length z" by (simp add: W_def)
  have sr: "scale_rows A W = Inr (A\<lparr>rows := map (\<lambda>i. map (\<lambda>e. e * sqrt (rw i)) (rows A ! i)) [0..<length z]\<rparr>)"
    using scale_rows_same_length [of W A] lW len(2) by (simp add: W_def cong: map_cong)
  have zw: "broadcast2 (\<lambda>a b. a * b) z W = Inr (map (\<lambda>i. z ! i * sqrt (rw i)) [0..<length z])"
    using lW map2_nth [of z W "\<lambda>a b. a * b"] by (simp add: broadcast2_def W_def cong: map_cong)
  show ?thesis by (simp only: w bindE_simps W sr zw)
qed

lemma robust_iteration_eq:
  assumes len: "length residuals = length z" "length (rows A) = length z"
      "\<forall>wv. w = Some wv \<longrightarrow> length wv = length z"
    and mad: "np_median (map abs residuals) = Some mad" "\<not> mad < 1 / 10 ^ 10"
  shows "robust_iteration lstsq A z w tol (coefficients, residuals) =
      (let k = 1.345 * mad;
           rw = (\<lambda>i. (if \<bar>residuals ! i\<bar> \<le> k then 1 else k / \<bar>residuals ! i\<bar>)
                        * (case w of None \<Rightarrow> 1 | Some wv \<Rightarrow> wv ! i))
       in case lstsq (A\<lparr>rows := map (\<lambda>i. map (\<lambda>e. e * sqrt (rw i)) (rows A ! i)) [0..<length z]\<rparr>)
                     (map (\<lambda>i. z ! i * sqrt (rw i)) [0..<length z]) of
            Inl e \<Rightarrow> Inr Break
          | Inr out \<Rightarrow>
              bindE (broadcast2 (\<lambda>a b. a - b) (solution out) coefficients)
                (\<lambda>diff. bindE (np_max (map abs diff))
                  (\<lambda>change. if change < tol then Inr Break
                             else bindE (residuals_of A z (solution out)) (\<lambda>fit. Inr (Next fit)))))"
  unfolding robust_iteration_def Let_def prod.case mad option.case
  using mad(2) by (simp only: if_False robust_refit_eq [OF len])

section \<open>Claims about the design matrix and the evaluator\<close>

text \<open>
  Claim C9. For every degree \<open>\<ge> 1\<close> and equal-length \<open>x\<close>, \<open>y\<close>,
  \<^verbatim>\<open>create_design_matrix\<close> returns a matrix with one row per point and exactly
  \<open>(degree + 1)(degree + 2) / 2\<close> columns; for \<open>d = 0..degree\<close> and \<open>j = 0..d\<close> the
  pair \<open>(d, j)\<close> is the column number \<open>d(d + 1)/2 + j\<close> in loop order, and that column
  holds \<open>x\<^sup>d\<^sup>-\<^sup>j y\<^sup>j\<close>; column 0 is the constant term.
\<close>

theorem design_matrix_columns:
  assumes "1 \<le> degree" "length x = length y"
  shows "\<exists>A. create_design_matrix x y degree = Inr A
     \<and> int (ncols A) = (degree + 1) * (degree + 2) div 2
     \<and> length (rows A) = length x
     \<and> (\<forall>i < length x. length (rows A ! i) = ncols A
           \<and> rows A ! i ! 0 = 1
           \<and> (\<forall>d j. int d \<le> degree \<and> j \<le> d \<longrightarrow>
                 d * (d + 1) div 2 + j < ncols A
               \<and> rows A ! i ! (d * (d + 1) div 2 + j) = x ! i ^ (d - j) * y ! i ^ j))"
proof -
  have deg: "0 \<le> degree" using assms(1) by simp
  have nt: "0 \<le> n_terms degree" using deg by (simp add: n_terms_def)
  have len: "length (loop_dj degree) = nat (n_terms degree)" by (rule length_loop_dj [OF deg])
  have cell: "d * (d + 1) div 2 + j < nat (n_terms degree)
      \<and> term_row xi yi (loop_dj degree) ! (d * (d + 1) div 2 + j) = xi ^ (d - j) * yi ^ j"
    if "int d \<le> degree" "j \<le> d" for d j xi yi
    using loop_dj_nth [OF that] len by (simp add: term_row_def)
  have zero: "term_row xi yi (loop_dj degree) ! 0 = 1" for xi yi
    using cell [of 0 0 xi yi] deg by simp
  show ?thesis
    unfolding create_design_matrix_eq [OF deg assms(2)]
    using nt cell zero by (simp add: len n_terms_def)
qed

theorem design_matrix_columns_witness:
  "(1::int) \<le> 1 \<and> length [2, 3::real] = length [5, 7::real]
   \<and> (\<exists>A. create_design_matrix [2, 3] [5, 7] 1 = Inr A \<and> ncols A = 3
          \<and> length (rows A) = 2 \<and> rows A ! 1 ! 0 = 1 \<and> rows A ! 1 ! 1 = 3 \<and> rows A ! 1 ! 2 = 7)"
proof -
  have h1: "(1::int) \<le> 1" and h2: "length [2, 3::real] = length [5, 7::real]" by simp_all
  from design_matrix_columns [OF h1 h2] obtain A where A: "create_design_matrix [2, 3] [5, 7] 1 = Inr A"
      "int (ncols A) = (1 + 1) * (1 + 2) div 2" "length (rows A) = length [2, 3::real]"
      and cells: "\<forall>i < length [2, 3::real]. length (rows A ! i) = ncols A \<and> rows A ! i ! 0 = 1
           \<and> (\<forall>d j. int d \<le> 1 \<and> j \<le> d \<longrightarrow>
                 d * (d + 1) div 2 + j < ncols A
               \<and> rows A ! i ! (d * (d + 1) div 2 + j) = [2, 3] ! i ^ (d - j) * [5, 7] ! i ^ j)"
    by blast
  have r: "rows A ! 1 ! 0 = 1" and c: "\<And>d j. int d \<le> 1 \<and> j \<le> d \<Longrightarrow>
               rows A ! 1 ! (d * (d + 1) div 2 + j) = [2, 3] ! 1 ^ (d - j) * [5, 7] ! 1 ^ j"
    using cells by simp_all
  have "rows A ! 1 ! 1 = 3" using c [of 1 0] by simp
  moreover have "rows A ! 1 ! 2 = 7" using c [of 1 1] by (simp add: numeral_2_eq_2)
  moreover have "ncols A = 3" using A(2) by simp
  ultimately show ?thesis using A(1,3) r by simp
qed

text \<open>
  Claim C1. For a coefficient vector of length \<open>(degree + 1)(degree + 2) / 2\<close>, the value
  \<^verbatim>\<open>evaluate_polynomial\<close> computes at a sample point \<open>(x\<^sub>i, y\<^sub>i)\<close> is the inner
  product of row \<open>i\<close> of the design matrix with the coefficients, which is entry \<open>i\<close> of
  the prediction \<^verbatim>\<open>np.dot(A, coefficients)\<close>. Over the reals; the evaluator adds the
  terms left to right in column order.
\<close>

theorem evaluate_polynomial_matches_design_row:
  assumes "0 \<le> degree" "int (length coefficients) = (degree + 1) * (degree + 2) div 2"
    and "length x = length y" "i < length x"
  shows "\<exists>A p. create_design_matrix x y degree = Inr A
     \<and> mat_vec A coefficients = Inr p
     \<and> p ! i = dot_row (rows A ! i) coefficients
     \<and> evaluate_polynomial (x ! i) (y ! i) coefficients degree = dot_row (rows A ! i) coefficients"
proof -
  have lc: "length coefficients = nat (n_terms degree)" using assms(2) by (simp add: n_terms_def)
  have len: "length (loop_dj degree) = length coefficients"
    using length_loop_dj [OF assms(1)] lc by simp
  have ev: "evaluate_polynomial xi yi coefficients degree
      = dot_row (term_row xi yi (loop_dj degree)) coefficients" for xi yi
    using eval_terms_eq [of 0 "loop_dj degree" coefficients xi yi 0] len
    by (simp add: evaluate_polynomial_def dot_row_term_row)
  show ?thesis
    unfolding create_design_matrix_eq [OF assms(1,3)]
    using assms(4) lc by (simp add: mat_vec_def ev)
qed



theorem evaluate_polynomial_matches_design_row_witness:
  "(0::int) \<le> 1 \<and> int (length [1, 1, 2::real]) = (1 + 1) * (1 + 2) div 2
   \<and> length [2, 3::real] = length [5, 7::real] \<and> (1::nat) < length [2, 3::real]
   \<and> evaluate_polynomial 3 7 [1, 1, 2] 1 = 18
   \<and> (\<exists>A p. create_design_matrix [2, 3] [5, 7] 1 = Inr A \<and> mat_vec A [1, 1, 2] = Inr p \<and> p ! 1 = 18)"
proof -
  have h: "(0::int) \<le> 1" "int (length [1, 1, 2::real]) = (1 + 1) * (1 + 2) div 2"
    "length [2, 3::real] = length [5, 7::real]" "(1::nat) < length [2, 3::real]" by simp_all
  have ev: "evaluate_polynomial 3 7 [1, 1, 2] 1 = 18"
    by (simp add: evaluate_polynomial_def loop_dj_def numeral_2_eq_2)
  from evaluate_polynomial_matches_design_row [OF h] obtain A p where "create_design_matrix [2, 3] [5, 7] 1 = Inr A" "mat_vec A [1, 1, 2] = Inr p"
     "p ! 1 = dot_row (rows A ! 1) [1, 1, 2]"
     "evaluate_polynomial ([2, 3] ! 1) ([5, 7] ! 1) [1, 1, 2] 1 = dot_row (rows A ! 1) [1, 1, 2]"
    by blast
  then show ?thesis using ev h by auto
qed
end
